theory Spec2Isabelle
  imports Main "HOL-Library.Sublist"
begin

section \<open>Python strings\<close>

text \<open>
  A Python \<open>str\<close> is a sequence of Unicode code points, so a string is a list of natural
  numbers here and \<open>py\<close> turns an ASCII literal into one. The functions below are the
  methods of \<open>str\<close> that \<^verbatim>\<open>slack-knowledge-assistant.py\<close> calls.

  \<open>isspace\<close> is the set of code points that \<open>str.strip()\<close> removes. \<open>lower_cp\<close> is the
  full lower-case mapping of one code point: exact on ASCII, on U+0130 (which lower-cases
  to two code points) and on U+212A (Kelvin sign, which lower-cases to ASCII k); every
  other code point outside ASCII lower-cases to code points outside ASCII, and is left as
  it is, which no comparison with an ASCII literal can tell apart.
\<close>

type_synonym pystr = "nat list"

definition py :: "string \<Rightarrow> pystr" where
  "py s = map of_char s"

definition isspace :: "nat \<Rightarrow> bool" where
  "isspace c = ((9 \<le> c \<and> c \<le> 13) \<or> (28 \<le> c \<and> c \<le> 32) \<or> c = 133 \<or> c = 160 \<or> c = 5760
     \<or> (8192 \<le> c \<and> c \<le> 8202) \<or> c = 8232 \<or> c = 8233 \<or> c = 8239 \<or> c = 8287 \<or> c = 12288)"

definition strip :: "pystr \<Rightarrow> pystr" where
  "strip s = rev (dropWhile isspace (rev (dropWhile isspace s)))"

definition lower_cp :: "nat \<Rightarrow> pystr" where
  "lower_cp c = (if 65 \<le> c \<and> c \<le> 90 then [c + 32]
                 else if c = 304 then [105, 775]
                 else if c = 8490 then [107]
                 else [c])"

definition lower :: "pystr \<Rightarrow> pystr" where
  "lower s = concat (map lower_cp s)"

definition startswith :: "pystr \<Rightarrow> pystr \<Rightarrow> bool" where
  "startswith s p = (take (length p) s = p)"

fun join :: "pystr \<Rightarrow> pystr list \<Rightarrow> pystr" where
  "join sep [] = []"
| "join sep [x] = x"
| "join sep (x # y # r) = x @ sep @ join sep (y # r)"

fun after_first :: "nat \<Rightarrow> pystr \<Rightarrow> pystr option" where
  "after_first d [] = None"
| "after_first d (c # s) = (if c = d then Some s else after_first d s)"

section \<open>Regular expressions of the content filter\<close>

text \<open>
  The four patterns of \<open>ContentFilter\<close> use literals, the dot, one optional character class
  and the optional quantifier, all under the inline flag \<open>(?i)\<close>. A pattern is a list of
  items; \<open>match_here\<close> is the backtracking matcher at one position (an optional item is
  tried first, then skipped) and \<open>re_search\<close> tries every start position, as
  \<open>re.search\<close> does; its result stands for the truth value of the match object.

  Under \<open>(?i)\<close> the engine lower-cases the subject character with the simple mapping
  \<open>sre_lower\<close> and compares it with the lower-cased literal and with the literal's
  case-equivalent code points (\<open>case_fixes\<close>: dotless i for i, long s for s).
\<close>

datatype atom = Lit nat | AnyChar | OneOf "nat list"
datatype item = One atom | Opt atom

definition sre_lower :: "nat \<Rightarrow> nat" where
  "sre_lower c = (if 65 \<le> c \<and> c \<le> 90 then c + 32
                  else if c = 304 then 105
                  else if c = 8490 then 107
                  else c)"

definition case_fixes :: "nat \<Rightarrow> nat list" where
  "case_fixes lo = (if lo = 105 then [305] else if lo = 115 then [383] else [])"

definition lit_matches :: "nat \<Rightarrow> nat \<Rightarrow> bool" where
  "lit_matches lo c = (sre_lower c = lo \<or> sre_lower c \<in> set (case_fixes lo))"

fun atom_matches :: "atom \<Rightarrow> nat \<Rightarrow> bool" where
  "atom_matches (Lit lo) c = lit_matches lo c"
| "atom_matches AnyChar c = (c \<noteq> 10)"
| "atom_matches (OneOf ls) c = list_ex (\<lambda>lo. lit_matches lo c) ls"

fun match_here :: "item list \<Rightarrow> pystr \<Rightarrow> bool" where
  "match_here [] s = True"
| "match_here (One a # r) [] = False"
| "match_here (One a # r) (c # t) = (atom_matches a c \<and> match_here r t)"
| "match_here (Opt a # r) [] = match_here r []"
| "match_here (Opt a # r) (c # t) = ((atom_matches a c \<and> match_here r t) \<or> match_here r (c # t))"

fun re_search :: "item list \<Rightarrow> pystr \<Rightarrow> bool" where
  "re_search p [] = match_here p []"
| "re_search p (c # t) = (match_here p (c # t) \<or> re_search p t)"

definition lits :: "string \<Rightarrow> item list" where
  "lits s = map (\<lambda>c. One (Lit (of_char c))) s"

record ContentFilter =
  blocked_patterns :: "item list list"

definition ContentFilter_init :: ContentFilter where
  "ContentFilter_init = \<lparr>blocked_patterns =
     [lits ''password'' @ [Opt (OneOf (py ''s''))],
      lits ''credit'' @ [Opt AnyChar] @ lits ''card'',
      lits ''ssn'',
      lits ''social'' @ [Opt AnyChar] @ lits ''security'']\<rparr>"

fun is_safe_loop :: "item list list \<Rightarrow> pystr \<Rightarrow> bool" where
  "is_safe_loop [] text = True"
| "is_safe_loop (p # ps) text = (if re_search p text then False else is_safe_loop ps text)"

definition is_safe_content :: "ContentFilter \<Rightarrow> pystr \<Rightarrow> bool" where
  "is_safe_content self text = is_safe_loop (blocked_patterns self) text"

section \<open>What a pattern matches\<close>

text \<open>
  \<open>lang p\<close> is the set of strings the pattern \<open>p\<close> matches as a whole, and \<open>occurs p s\<close>
  says that \<open>s\<close> contains a substring matched by \<open>p\<close>. Two strings are the same up to
  case when they agree position by position after simple lower-casing.
\<close>

fun lang :: "item list \<Rightarrow> pystr set" where
  "lang [] = {[]}"
| "lang (One a # r) = {c # w | c w. atom_matches a c \<and> w \<in> lang r}"
| "lang (Opt a # r) = {c # w | c w. atom_matches a c \<and> w \<in> lang r} \<union> lang r"

definition occurs :: "item list \<Rightarrow> pystr \<Rightarrow> bool" where
  "occurs p s = (\<exists>u w v. s = u @ w @ v \<and> w \<in> lang p)"

definition same_up_to_case :: "pystr \<Rightarrow> pystr \<Rightarrow> bool" where
  "same_up_to_case s t = list_all2 (\<lambda>a b. sre_lower a = sre_lower b) s t"

text \<open>
  A pattern is anchored when it cannot match the empty string and every match begins and
  ends with a letter; the three functions below decide this from the pattern alone.
\<close>

definition is_letter :: "nat \<Rightarrow> bool" where
  "is_letter lo = (97 \<le> lo \<and> lo \<le> 122)"

fun solid :: "atom \<Rightarrow> bool" where
  "solid (Lit lo) = is_letter lo"
| "solid AnyChar = False"
| "solid (OneOf ls) = list_all is_letter ls"

fun nullable :: "item list \<Rightarrow> bool" where
  "nullable [] = True"
| "nullable (One a # r) = False"
| "nullable (Opt a # r) = nullable r"

fun first_solid :: "item list \<Rightarrow> bool" where
  "first_solid [] = True"
| "first_solid (One a # r) = solid a"
| "first_solid (Opt a # r) = (solid a \<and> first_solid r)"

fun last_solid :: "item list \<Rightarrow> bool" where
  "last_solid [] = True"
| "last_solid (One a # r) = (last_solid r \<and> (nullable r \<longrightarrow> solid a))"
| "last_solid (Opt a # r) = (last_solid r \<and> (nullable r \<longrightarrow> solid a))"

definition anchored :: "item list \<Rightarrow> bool" where
  "anchored p = (\<not> nullable p \<and> first_solid p \<and> last_solid p)"

section \<open>Effects: external calls, output and exceptions\<close>

text \<open>
  The program talks to four collaborators that are not part of it: the language model
  \<open>llm\<close>, the wiki client \<open>confluence\<close>, the PostgreSQL driver and the Slack reply
  function \<open>say\<close>. A computation returns the list of external calls and outputs it has
  made, in order, together with its result: \<open>Inr\<close> a value, or \<open>Inl\<close> the exception that
  left it. \<open>Exn\<close> stands for any exception that \<open>except Exception\<close> catches and carries
  the text \<open>str(e)\<close>.
\<close>

datatype exn = Exn pystr

fun msg :: "exn \<Rightarrow> pystr" where
  "msg (Exn m) = m"

datatype event =
    LlmCall pystr nat
  | ConfluenceSearch pystr nat
  | Connect
  | Cursor
  | Execute pystr
  | Fetchall
  | CursorClose
  | Commit
  | Rollback
  | Print pystr
  | Say pystr

type_synonym 'a io = "event list \<times> (exn + 'a)"

definition io_return :: "'a \<Rightarrow> 'a io" where
  "io_return x = ([], Inr x)"

definition io_raise :: "exn \<Rightarrow> 'a io" where
  "io_raise e = ([], Inl e)"

definition io_bind :: "'a io \<Rightarrow> ('a \<Rightarrow> 'b io) \<Rightarrow> 'b io" where
  "io_bind m f = (case m of
       (t, Inl e) \<Rightarrow> (t, Inl e)
     | (t, Inr x) \<Rightarrow> (case f x of (t', r) \<Rightarrow> (t @ t', r)))"

definition io_emit :: "event \<Rightarrow> unit io" where
  "io_emit ev = ([ev], Inr ())"

definition io_call :: "event \<Rightarrow> exn + 'a \<Rightarrow> 'a io" where
  "io_call ev outcome = ([ev], outcome)"

definition io_try :: "'a io \<Rightarrow> (exn \<Rightarrow> 'a io) \<Rightarrow> 'a io" where
  "io_try body handler = (case body of
       (t, Inl e) \<Rightarrow> (case handler e of (t', r) \<Rightarrow> (t @ t', r))
     | (t, Inr x) \<Rightarrow> (t, Inr x))"

fun may_raise :: "exn option \<Rightarrow> exn + unit" where
  "may_raise None = Inr ()"
| "may_raise (Some e) = Inl e"

text \<open>The statements handed to the database executor, and the texts sent as replies.\<close>

fun executed :: "event list \<Rightarrow> pystr list" where
  "executed [] = []"
| "executed (Execute q # t) = q # executed t"
| "executed (_ # t) = executed t"

fun said :: "event list \<Rightarrow> pystr list" where
  "said [] = []"
| "said (Say s # t) = s # said t"
| "said (_ # t) = said t"

section \<open>Data\<close>

text \<open>
  A raw wiki result is a dictionary; a field is \<open>None\<close> when the key is absent. A
  \<open>source_excerpt\<close> is the dictionary \<open>search_confluence\<close> builds, where \<open>None\<close> is
  Python's \<open>None\<close>. A database record is a dictionary from column names to values, kept
  as an association list in insertion order; the type of database values is a parameter
  and \<open>str_of\<close> is Python's \<open>str\<close> on them.

  An environment \<open>env\<close> fixes what the collaborators answer during one request.
  \<open>llm env prompt n\<close> is the text \<open>llm(prompt, max_tokens=n)['choices'][0]['text']\<close>, or
  the exception raised on the way to it; \<open>confluence_search env query limit\<close> is the result
  of \<open>confluence.search\<close>; \<open>connect\<close>, \<open>cursor\<close> and \<open>commit\<close> are \<open>None\<close> when the
  operation succeeds and the exception otherwise; \<open>execute env sql\<close> is the state of the
  cursor after \<open>cur.execute(sql)\<close>, with the column names of \<open>cur.description\<close> and the
  outcome of \<open>cur.fetchall()\<close>. \<open>repr_excerpts\<close> and \<open>repr_records\<close> are the texts that
  the f-string of the synthesis prompt puts in for the two result lists.
\<close>

record wiki_result =
  r_content :: "pystr option"
  r_title :: "pystr option"
  r_excerpt :: "pystr option"
  r_links :: "(pystr \<times> pystr) list option"

record source_excerpt =
  title :: "pystr option"
  excerpt :: "pystr option"
  url :: "pystr option"

type_synonym 'v pydict = "(pystr \<times> 'v) list"

fun dict_set :: "pystr \<Rightarrow> 'v \<Rightarrow> 'v pydict \<Rightarrow> 'v pydict" where
  "dict_set k v [] = [(k, v)]"
| "dict_set k v ((k', v') # d) = (if k' = k then (k, v) # d else (k', v') # dict_set k v d)"

fun dict_from :: "'v pydict \<Rightarrow> (pystr \<times> 'v) list \<Rightarrow> 'v pydict" where
  "dict_from d [] = d"
| "dict_from d ((k, v) # kvs) = dict_from (dict_set k v d) kvs"

definition dict_zip :: "pystr list \<Rightarrow> 'v list \<Rightarrow> 'v pydict" where
  "dict_zip columns row = dict_from [] (zip columns row)"

definition dict_values :: "'v pydict \<Rightarrow> 'v list" where
  "dict_values d = map snd d"

record 'v cursor_state =
  description :: "pystr list option"
  fetchall :: "exn + 'v list list"

record 'v env =
  allowed_tables :: "pystr list"
  llm :: "pystr \<Rightarrow> nat \<Rightarrow> exn + pystr"
  confluence_search :: "pystr \<Rightarrow> nat \<Rightarrow> exn + wiki_result list"
  connect :: "exn option"
  cursor :: "exn option"
  execute :: "pystr \<Rightarrow> exn + 'v cursor_state"
  commit :: "exn option"
  str_of :: "'v \<Rightarrow> pystr"
  repr_excerpts :: "source_excerpt list \<Rightarrow> pystr"
  repr_records :: "'v pydict list \<Rightarrow> pystr"

record slack_event =
  ev_text :: "pystr option"
  ev_channel_type :: "pystr option"

section \<open>KnowledgeBase\<close>

record KnowledgeBase =
  content_filter :: ContentFilter

definition KnowledgeBase_init :: KnowledgeBase where
  "KnowledgeBase_init = \<lparr>content_filter = ContentFilter_init\<rparr>"

definition to_excerpt :: "wiki_result \<Rightarrow> source_excerpt" where
  "to_excerpt result = \<lparr>title = r_title result, excerpt = r_excerpt result,
     url = (case r_links result of None \<Rightarrow> None | Some links \<Rightarrow> map_of links (py ''webui''))\<rparr>"

definition content_of :: "wiki_result \<Rightarrow> pystr" where
  "content_of result = (case r_content result of None \<Rightarrow> [] | Some c \<Rightarrow> c)"

fun confluence_loop :: "KnowledgeBase \<Rightarrow> wiki_result list \<Rightarrow> source_excerpt list \<Rightarrow> source_excerpt list" where
  "confluence_loop self [] filtered_results = filtered_results"
| "confluence_loop self (result # results) filtered_results =
     confluence_loop self results
       (if is_safe_content (content_filter self) (content_of result)
        then filtered_results @ [to_excerpt result]
        else filtered_results)"

definition search_confluence :: "'v env \<Rightarrow> KnowledgeBase \<Rightarrow> pystr \<Rightarrow> source_excerpt list io" where
  "search_confluence env self query =
     io_bind (io_call (ConfluenceSearch query 5) (confluence_search env query 5)) (\<lambda>results.
     io_return (confluence_loop self results []))"

definition sql_prompt :: "pystr list \<Rightarrow> pystr \<Rightarrow> pystr" where
  "sql_prompt tables query =
     py ''Convert this question to a safe SQL query that only uses SELECT statements and the following tables: ''
     @ join (py '', '') tables @ [10]
     @ py ''        Question: '' @ query @ [10]
     @ py ''        SQL:''"

definition all_values_safe :: "'v env \<Rightarrow> KnowledgeBase \<Rightarrow> 'v pydict \<Rightarrow> bool" where
  "all_values_safe env self result =
     list_all (\<lambda>value. is_safe_content (content_filter self) (str_of env value)) (dict_values result)"

fun rows_loop :: "'v env \<Rightarrow> KnowledgeBase \<Rightarrow> pystr list \<Rightarrow> 'v list list \<Rightarrow> 'v pydict list \<Rightarrow> 'v pydict list" where
  "rows_loop env self columns [] results = results"
| "rows_loop env self columns (row # rows) results =
     rows_loop env self columns rows
       (if all_values_safe env self (dict_zip columns row)
        then results @ [dict_zip columns row]
        else results)"

text \<open>
  \<open>with conn:\<close> of the driver commits when its body ends normally and rolls back when an
  exception leaves it; \<open>with conn.cursor() as cur:\<close> closes the cursor on every exit.
  Iterating \<open>cur.description\<close> raises a \<open>TypeError\<close> when the statement produced no result
  set. All exceptions of the \<open>try\<close> block arise before the first \<open>append\<close>, so the handler
  leaves \<open>results\<close> empty.
\<close>

definition with_connection :: "'v env \<Rightarrow> 'a io \<Rightarrow> 'a io" where
  "with_connection env body = (case body of
       (t, Inl e) \<Rightarrow> (t @ [Rollback], Inl e)
     | (t, Inr x) \<Rightarrow> (t @ [Commit], case commit env of None \<Rightarrow> Inr x | Some e \<Rightarrow> Inl e))"

definition with_cursor :: "'a io \<Rightarrow> 'a io" where
  "with_cursor body = (case body of (t, r) \<Rightarrow> (t @ [CursorClose], r))"

definition none_not_iterable :: exn where
  "none_not_iterable = Exn ([39] @ py ''NoneType'' @ [39] @ py '' object is not iterable'')"

definition db_error_print :: "exn \<Rightarrow> event" where
  "db_error_print e = Print (py ''Database query error: '' @ msg e)"

definition run_query :: "'v env \<Rightarrow> KnowledgeBase \<Rightarrow> pystr \<Rightarrow> 'v pydict list io" where
  "run_query env self sql_query =
     io_try
       (io_bind (io_call (Execute sql_query) (execute env sql_query)) (\<lambda>cur.
        case description cur of
          None \<Rightarrow> io_raise none_not_iterable
        | Some columns \<Rightarrow>
            io_bind (io_call Fetchall (fetchall cur)) (\<lambda>rows.
            io_return (rows_loop env self columns rows []))))
       (\<lambda>e. io_bind (io_emit (db_error_print e)) (\<lambda>_.
            io_return []))"

definition query_database :: "'v env \<Rightarrow> KnowledgeBase \<Rightarrow> pystr \<Rightarrow> 'v pydict list io" where
  "query_database env self query =
     (let prompt = sql_prompt (allowed_tables env) query in
      io_bind (io_call (LlmCall prompt 100) (llm env prompt 100)) (\<lambda>text.
      let sql_query = strip text in
      if \<not> startswith (lower sql_query) (py ''select'') then io_return []
      else
        io_bind (io_call Connect (may_raise (connect env))) (\<lambda>_.
        with_connection env
          (io_bind (io_call Cursor (may_raise (cursor env))) (\<lambda>_.
           with_cursor (run_query env self sql_query))))))"

section \<open>ResponseGenerator\<close>

record ResponseGenerator =
  kb :: KnowledgeBase

definition ResponseGenerator_init :: ResponseGenerator where
  "ResponseGenerator_init = \<lparr>kb = KnowledgeBase_init\<rparr>"

definition context_prompt :: "pystr \<Rightarrow> pystr \<Rightarrow> pystr \<Rightarrow> pystr" where
  "context_prompt confluence_text db_text query =
     [10] @ py ''        Information from Confluence:'' @ [10]
     @ py ''        '' @ confluence_text @ [10]
     @ py ''        '' @ [10]
     @ py ''        Information from Database:'' @ [10]
     @ py ''        '' @ db_text @ [10]
     @ py ''        '' @ [10]
     @ py ''        Based on the above information, please provide a helpful and accurate response.'' @ [10]
     @ py ''        Question: '' @ query @ [10]
     @ py ''        Answer:''"

definition sources_of :: "source_excerpt list \<Rightarrow> 'v pydict list \<Rightarrow> pystr list" where
  "sources_of confluence_results db_results =
     (if confluence_results \<noteq> [] then [py ''Confluence''] else [])
     @ (if db_results \<noteq> [] then [py ''internal database''] else [])"

definition attribute :: "pystr \<Rightarrow> pystr list \<Rightarrow> pystr" where
  "attribute generated_text sources =
     (if sources \<noteq> [] then generated_text @ [10, 10] @ py ''Sources: '' @ join (py '' and '') sources
      else generated_text)"

definition generate_response :: "'v env \<Rightarrow> ResponseGenerator \<Rightarrow> pystr \<Rightarrow> pystr io" where
  "generate_response env self query =
     io_bind (search_confluence env (kb self) query) (\<lambda>confluence_results.
     io_bind (query_database env (kb self) query) (\<lambda>db_results.
     let context = context_prompt (repr_excerpts env confluence_results)
                     (repr_records env db_results) query in
     io_bind (io_call (LlmCall context 500) (llm env context 500)) (\<lambda>text.
     io_return (attribute (strip text) (sources_of confluence_results db_results)))))"

section \<open>The Slack handlers\<close>

text \<open>
  \<open>say\<close> is the reply channel: a reply is an output of the handler. \<open>event['text']\<close>
  raises a \<open>KeyError\<close> when the key is absent, and \<open>split('>', 1)[1]\<close> an \<open>IndexError\<close>
  when the text has no \<open>>\<close>.
\<close>

definition apology :: pystr where
  "apology = py ''I apologize, but I encountered an error processing your request. Please try again or rephrase your question.''"

definition key_error_text :: exn where
  "key_error_text = Exn ([39] @ py ''text'' @ [39])"

definition index_error :: exn where
  "index_error = Exn (py ''list index out of range'')"

definition handle_mention :: "'v env \<Rightarrow> ResponseGenerator \<Rightarrow> slack_event \<Rightarrow> unit io" where
  "handle_mention env response_generator event =
     io_try
       (case ev_text event of
          None \<Rightarrow> io_raise key_error_text
        | Some t \<Rightarrow>
            (case after_first 62 t of
               None \<Rightarrow> io_raise index_error
             | Some rest \<Rightarrow>
                 io_bind (generate_response env response_generator (strip rest)) (\<lambda>response.
                 io_emit (Say response))))
       (\<lambda>e. io_bind (io_emit (Say apology)) (\<lambda>_.
            io_emit (Print (py ''Error processing mention: '' @ msg e))))"

definition handle_message :: "'v env \<Rightarrow> ResponseGenerator \<Rightarrow> slack_event \<Rightarrow> unit io" where
  "handle_message env response_generator event =
     (if ev_channel_type event = Some (py ''im'') then
        io_try
          (case ev_text event of
             None \<Rightarrow> io_raise key_error_text
           | Some t \<Rightarrow>
               io_bind (generate_response env response_generator t) (\<lambda>response.
               io_emit (Say response)))
          (\<lambda>e. io_bind (io_emit (Say apology)) (\<lambda>_.
               io_emit (Print (py ''Error processing message: '' @ msg e))))
      else io_return ())"

section \<open>Case-insensitive prefixes\<close>

text \<open>
  \<open>begins_ci kw s\<close>: the string \<open>s\<close> begins with the keyword \<open>kw\<close> up to the case of its
  characters.
\<close>

definition begins_ci :: "pystr \<Rightarrow> pystr \<Rightarrow> bool" where
  "begins_ci kw s = (\<exists>pre rest. s = pre @ rest \<and> same_up_to_case pre kw)"

section \<open>Example environments\<close>

text \<open>
  \<open>quiet_env\<close> is an environment in which the wiki finds nothing, the database holds the
  table of the example rows and the model answers every prompt with the same text; the
  other environments change one collaborator of it.
\<close>

definition example_rows :: "pystr cursor_state" where
  "example_rows = \<lparr>description = Some [py ''name'', py ''note''],
     fetchall = Inr [[py ''Alice'', py ''on call''], [py ''Bob'', py ''password: hunter2'']]\<rparr>"

definition quiet_env :: "pystr \<Rightarrow> pystr env" where
  "quiet_env completion = \<lparr>allowed_tables = [py ''docs''],
     llm = (\<lambda>prompt max_tokens. Inr completion),
     confluence_search = (\<lambda>query limit. Inr []),
     connect = None, cursor = None,
     execute = (\<lambda>sql. Inr example_rows),
     commit = None,
     str_of = (\<lambda>value. value),
     repr_excerpts = (\<lambda>xs. []),
     repr_records = (\<lambda>xs. [])\<rparr>"

definition db_down_env :: "pystr env" where
  "db_down_env = (quiet_env (py ''SELECT name FROM docs''))
     \<lparr>connect := Some (Exn (py ''could not connect to server''))\<rparr>"

definition failing_llm_env :: "pystr env" where
  "failing_llm_env = (quiet_env [])\<lparr>llm := (\<lambda>prompt max_tokens.
     if max_tokens = 500 then Inl (Exn (py ''model failure''))
     else Inr (py ''SELECT name, note FROM docs''))\<rparr>"

definition clean_page :: wiki_result where
  "clean_page = \<lparr>r_content = Some (py ''VPN setup guide''), r_title = Some (py ''VPN''),
     r_excerpt = Some (py ''Install the client''), r_links = Some [(py ''webui'', py ''/vpn'')]\<rparr>"

definition leaky_page :: wiki_result where
  "leaky_page = \<lparr>r_content = Some (py ''Admin notes''), r_title = Some (py ''Admin''),
     r_excerpt = Some (py ''root password: hunter2''), r_links = None\<rparr>"

definition wiki_env :: "wiki_result list \<Rightarrow> pystr \<Rightarrow> pystr env" where
  "wiki_env pages completion = (quiet_env completion)\<lparr>confluence_search := (\<lambda>query limit. Inr pages)\<rparr>"

definition mention_event :: slack_event where
  "mention_event = \<lparr>ev_text = Some (py ''<@U1> who is on call''), ev_channel_type = None\<rparr>"

definition direct_event :: slack_event where
  "direct_event = \<lparr>ev_text = Some (py ''who is on call''), ev_channel_type = Some (py ''im'')\<rparr>"

definition ssn_rows :: "pystr cursor_state" where
  "ssn_rows = \<lparr>description = Some [py ''name'', py ''ssn''],
     fetchall = Inr [[py ''Alice'', py ''123-45-6789'']]\<rparr>"

definition ssn_env :: "pystr env" where
  "ssn_env = (quiet_env (py ''SELECT name, ssn FROM people''))\<lparr>execute := (\<lambda>sql. Inr ssn_rows)\<rparr>"



lemma lang_One_prefix:
  "(\<exists>w\<in>lang (One a # r). prefix w s) \<longleftrightarrow>
   (case s of [] \<Rightarrow> False | c # t \<Rightarrow> atom_matches a c \<and> (\<exists>w\<in>lang r. prefix w t))"
  by (cases s) (force+)

lemma lang_Opt_prefix:
  "(\<exists>w\<in>lang (Opt a # r). prefix w s) \<longleftrightarrow>
   ((\<exists>w\<in>lang (One a # r). prefix w s) \<or> (\<exists>w\<in>lang r. prefix w s))"
  by auto

lemma match_here_iff: "match_here p s \<longleftrightarrow> (\<exists>w \<in> lang p. prefix w s)"
proof (induction p s rule: match_here.induct)
  case (1 s)
  show ?case by simp
next
  case (2 a r)
  show ?case unfolding lang_One_prefix by simp
next
  case (3 a r c t)
  then show ?case unfolding lang_One_prefix by simp
next
  case (4 a r)
  then show ?case unfolding lang_Opt_prefix lang_One_prefix by simp
next
  case (5 a r c t)
  then show ?case unfolding lang_Opt_prefix lang_One_prefix by simp
qed

lemma re_search_suffix: "re_search p s \<longleftrightarrow> (\<exists>t. suffix t s \<and> match_here p t)"
  by (induction p s rule: re_search.induct) (auto simp: suffix_Cons)

lemma re_search_iff: "re_search p s \<longleftrightarrow> (\<exists>u w v. s = u @ w @ v \<and> w \<in> lang p)"
  unfolding re_search_suffix match_here_iff prefix_def suffix_def by blast

lemma sre_lower_newline: "sre_lower c = sre_lower d \<Longrightarrow> (c = 10) = (d = 10)"
  by (auto simp: sre_lower_def split: if_splits)

lemma atom_matches_case: "sre_lower c = sre_lower d \<Longrightarrow> atom_matches a c = atom_matches a d"
  by (cases a) (auto simp: lit_matches_def list_ex_iff dest: sre_lower_newline)

lemma match_here_case:
  "list_all2 (\<lambda>a b. sre_lower a = sre_lower b) s t \<Longrightarrow> match_here p s = match_here p t"
proof (induction p s arbitrary: t rule: match_here.induct)
  case (3 a r c t')
  then show ?case by (auto simp: list_all2_Cons1 dest: atom_matches_case)
next
  case (5 a r c t')
  from "5.prems" obtain d u where t: "t = d # u" and cd: "sre_lower c = sre_lower d"
    and tu: "list_all2 (\<lambda>a b. sre_lower a = sre_lower b) t' u"
    by (auto simp: list_all2_Cons1)
  have "match_here r t' = match_here r u" using "5.IH"(1) tu by blast
  moreover have "match_here r (c # t') = match_here r (d # u)" using "5.IH"(2) "5.prems" t by blast
  ultimately show ?case using atom_matches_case[OF cd] t by simp
qed auto

lemma re_search_case:
  "list_all2 (\<lambda>a b. sre_lower a = sre_lower b) s t \<Longrightarrow> re_search p s = re_search p t"
proof (induction p s arbitrary: t rule: re_search.induct)
  case (1 p)
  then show ?case by simp
next
  case (2 p c s)
  from "2.prems" obtain d u where t: "t = d # u"
    and tu: "list_all2 (\<lambda>a b. sre_lower a = sre_lower b) s u"
    by (auto simp: list_all2_Cons1)
  have "match_here p (c # s) = match_here p (d # u)" using match_here_case "2.prems" t by blast
  moreover have "re_search p s = re_search p u" using "2.IH" tu by blast
  ultimately show ?case using t by simp
qed

lemma is_safe_loop_case:
  "list_all2 (\<lambda>a b. sre_lower a = sre_lower b) s t \<Longrightarrow> is_safe_loop ps s = is_safe_loop ps t"
  by (induction ps) (auto dest: re_search_case)

lemma is_safe_loop_iff: "is_safe_loop ps text \<longleftrightarrow> (\<forall>p\<in>set ps. \<not> re_search p text)"
  by (induction ps) auto

lemma letter_not_space: "is_letter lo \<Longrightarrow> lit_matches lo c \<Longrightarrow> \<not> isspace c"
  by (auto simp: is_letter_def lit_matches_def sre_lower_def case_fixes_def isspace_def split: if_splits)

lemma solid_not_space: "solid a \<Longrightarrow> atom_matches a c \<Longrightarrow> \<not> isspace c"
  by (cases a) (auto simp: list_ex_iff list_all_iff dest: letter_not_space)

lemma lang_nullable: "[] \<in> lang p \<longleftrightarrow> nullable p"
  by (induction p rule: nullable.induct) auto

lemma lang_first: "w \<in> lang p \<Longrightarrow> first_solid p \<Longrightarrow> w \<noteq> [] \<Longrightarrow> \<not> isspace (hd w)"
  by (induction p rule: first_solid.induct) (auto dest: solid_not_space)

lemma lang_last: "w \<in> lang p \<Longrightarrow> last_solid p \<Longrightarrow> w \<noteq> [] \<Longrightarrow> \<not> isspace (last w)"
proof (induction p arbitrary: w rule: last_solid.induct)
  case 1
  then show ?case by simp
next
  case (2 a r)
  then obtain c w' where w: "w = c # w'" and m: "atom_matches a c" and w': "w' \<in> lang r" by auto
  show ?case
  proof (cases "w' = []")
    case True
    then have "nullable r" using w' lang_nullable by blast
    then have "solid a" using "2.prems" by simp
    then show ?thesis using m w True solid_not_space by auto
  next
    case False
    then show ?thesis using "2.IH"[OF w'] "2.prems" w by simp
  qed
next
  case (3 a r)
  from "3.prems"(1) consider (skip) "w \<in> lang r"
    | (take) c w' where "w = c # w'" "atom_matches a c" "w' \<in> lang r" by auto
  then show ?case
  proof cases
    case skip
    then show ?thesis using "3.IH" "3.prems" by simp
  next
    case take
    show ?thesis
    proof (cases "w' = []")
      case True
      then have "nullable r" using take lang_nullable by blast
      then have "solid a" using "3.prems" by simp
      then show ?thesis using take True solid_not_space by auto
    next
      case False
      then show ?thesis using "3.IH"[OF take(3)] "3.prems" take by simp
    qed
  qed
qed

lemma occurs_lead:
  assumes "anchored p" "isspace c"
  shows "occurs p (c # s) = occurs p s"
proof
  assume "occurs p (c # s)"
  then obtain u w v where e: "c # s = u @ w @ v" and w: "w \<in> lang p" by (auto simp: occurs_def)
  have ne: "w \<noteq> []" using w assms(1) lang_nullable by (auto simp: anchored_def)
  have "u \<noteq> []"
  proof
    assume "u = []"
    then have "hd w = c" using e ne by (cases w) auto
    then show False using lang_first[OF w] assms ne by (auto simp: anchored_def)
  qed
  then obtain u' where "u = c # u'" "s = u' @ w @ v" using e by (cases u) auto
  then show "occurs p s" using w by (auto simp: occurs_def)
next
  assume "occurs p s"
  then obtain u w v where "s = u @ w @ v" "w \<in> lang p" by (auto simp: occurs_def)
  then have "c # s = (c # u) @ w @ v" by simp
  then show "occurs p (c # s)" using \<open>w \<in> lang p\<close> unfolding occurs_def by blast
qed

lemma occurs_trail:
  assumes "anchored p" "isspace c"
  shows "occurs p (s @ [c]) = occurs p s"
proof
  assume "occurs p (s @ [c])"
  then obtain u w v where e: "s @ [c] = u @ w @ v" and w: "w \<in> lang p" by (auto simp: occurs_def)
  have ne: "w \<noteq> []" using w assms(1) lang_nullable by (auto simp: anchored_def)
  have "v \<noteq> []"
  proof
    assume "v = []"
    then have "last w = c" using e ne by (metis append.right_neutral last_appendR last_snoc)
    then show False using lang_last[OF w] assms ne by (auto simp: anchored_def)
  qed
  then obtain v' d where v: "v = v' @ [d]" by (cases v rule: rev_cases) auto
  then have "s @ [c] = (u @ w @ v') @ [d]" using e by simp
  then have "s = u @ w @ v'" by (simp only: append1_eq_conv)
  then show "occurs p s" using w by (auto simp: occurs_def)
next
  assume "occurs p s"
  then obtain u w v where "s = u @ w @ v" "w \<in> lang p" by (auto simp: occurs_def)
  then have "s @ [c] = u @ w @ (v @ [c])" by simp
  then show "occurs p (s @ [c])" using \<open>w \<in> lang p\<close> unfolding occurs_def by blast
qed

lemma occurs_leading: "anchored p \<Longrightarrow> list_all isspace a \<Longrightarrow> occurs p (a @ s) = occurs p s"
  by (induction a) (auto simp: occurs_lead)

lemma occurs_trailing: "anchored p \<Longrightarrow> list_all isspace b \<Longrightarrow> occurs p (s @ b) = occurs p s"
proof (induction b rule: rev_induct)
  case Nil
  then show ?case by simp
next
  case (snoc c b)
  have "occurs p ((s @ b) @ [c]) = occurs p (s @ b)"
    by (rule occurs_trail) (use snoc.prems in auto)
  then show ?case using snoc by simp
qed

lemma anchored_init: "list_all anchored (blocked_patterns ContentFilter_init)"
  by (simp add: ContentFilter_init_def lits_def py_def anchored_def is_letter_def)

section \<open>ContentFilter.is_safe_content\<close>

lemma is_safe_content_iff:
  "is_safe_content self text \<longleftrightarrow> \<not> (\<exists>p\<in>set (blocked_patterns self). occurs p text)"
  by (simp add: is_safe_content_def is_safe_loop_iff re_search_iff occurs_def)

lemma is_safe_content_case:
  "same_up_to_case text text' \<Longrightarrow> is_safe_content self text' = is_safe_content self text"
  unfolding is_safe_content_def same_up_to_case_def
  by (rule is_safe_loop_case [symmetric])

lemma is_safe_content_whitespace:
  assumes "list_all isspace a" "list_all isspace b"
  shows "is_safe_content ContentFilter_init (a @ text @ b) = is_safe_content ContentFilter_init text"
proof -
  have "occurs p (a @ text @ b) = occurs p text"
    if "p \<in> set (blocked_patterns ContentFilter_init)" for p
  proof -
    have anc: "anchored p" using that anchored_init by (simp add: list_all_iff)
    have "occurs p (a @ (text @ b)) = occurs p (text @ b)"
      using anc assms(1) by (rule occurs_leading)
    also have "\<dots> = occurs p text"
      using anc assms(2) by (rule occurs_trailing)
    finally show ?thesis .
  qed
  then show ?thesis unfolding is_safe_content_iff by blast
qed

text \<open>
  C7. \<open>is_safe_content\<close> returns false exactly for the texts that contain a substring
  matched by one of the filter's patterns, and true for all others. The answer is the same
  for two texts that differ only in the case of their characters, and, for the configured
  patterns, it does not change when whitespace is put before and after the text. The
  function reads its two arguments and nothing else: it has no effect to model.
\<close>

theorem is_safe_content_decides_blocked_patterns:
  "(is_safe_content self text \<longleftrightarrow> \<not> (\<exists>p\<in>set (blocked_patterns self). occurs p text))
   \<and> (same_up_to_case text text' \<longrightarrow> is_safe_content self text' = is_safe_content self text)
   \<and> (list_all isspace a \<and> list_all isspace b \<longrightarrow>
        is_safe_content ContentFilter_init (a @ text @ b) = is_safe_content ContentFilter_init text)"
  using is_safe_content_iff is_safe_content_case is_safe_content_whitespace by blast

theorem is_safe_content_decides_blocked_patterns_witness:
  "\<not> is_safe_content ContentFilter_init (py ''My PassWord'')
   \<and> (\<exists>p\<in>set (blocked_patterns ContentFilter_init). occurs p (py ''My PassWord''))
   \<and> same_up_to_case (py ''My PassWord'') (py ''my password'')
   \<and> \<not> is_safe_content ContentFilter_init (py ''my password'')
   \<and> list_all isspace (py ''  '') \<and> list_all isspace [10]
   \<and> \<not> is_safe_content ContentFilter_init (py ''  '' @ py ''My PassWord'' @ [10])"
proof -
  have unsafe: "\<not> is_safe_content ContentFilter_init (py ''My PassWord'')"
    by (simp add: is_safe_content_def ContentFilter_init_def py_def lits_def lit_matches_def
        sre_lower_def case_fixes_def)
  have same: "same_up_to_case (py ''My PassWord'') (py ''my password'')"
    by (simp add: same_up_to_case_def py_def sre_lower_def)
  have sp: "list_all isspace (py ''  '') \<and> list_all isspace [10]"
    by (simp add: py_def isspace_def)
  show ?thesis
    using is_safe_content_decides_blocked_patterns
      [of ContentFilter_init "py ''My PassWord''" "py ''my password''" "py ''  ''" "[10]"]
      unsafe same sp
    by blast
qed

section \<open>Strings: stripping and case-insensitive prefixes\<close>

lemma lower_cp_sre_lower: "c \<noteq> 304 \<Longrightarrow> lower_cp c = [sre_lower c]"
  by (simp add: lower_cp_def sre_lower_def)

lemma startswith_lower_iff:
  "\<forall>k\<in>set kw. k \<noteq> 105 \<and> sre_lower k = k \<Longrightarrow> startswith (lower s) kw = begins_ci kw s"
proof (induction kw arbitrary: s)
  case Nil
  show ?case by (simp add: startswith_def begins_ci_def same_up_to_case_def)
next
  case (Cons k kw)
  have k: "k \<noteq> 105" "sre_lower k = k" using Cons.prems by auto
  have IH: "startswith (lower t) kw = begins_ci kw t" for t using Cons by simp
  show ?case
  proof (cases s)
    case Nil
    then show ?thesis by (simp add: startswith_def begins_ci_def same_up_to_case_def lower_def)
  next
    case (Cons c t)
    have b: "begins_ci (k # kw) (c # t) = (sre_lower c = k \<and> begins_ci kw t)"
      unfolding begins_ci_def same_up_to_case_def using k(2)
      by (auto simp: list_all2_Cons2 Cons_eq_append_conv)
    show ?thesis
    proof (cases "c = 304")
      case True
      then have "sre_lower c = 105" by (simp add: sre_lower_def)
      moreover have "\<not> startswith (lower (c # t)) (k # kw)"
        using True k(1) by (simp add: startswith_def lower_def lower_cp_def)
      ultimately show ?thesis using b k(1) Cons by simp
    next
      case False
      have "startswith (lower (c # t)) (k # kw) = (sre_lower c = k \<and> startswith (lower t) kw)"
        using lower_cp_sre_lower[OF False] by (auto simp: startswith_def lower_def)
      then show ?thesis using b IH Cons by simp
    qed
  qed
qed

lemma startswith_select: "startswith (lower s) (py ''select'') = begins_ci (py ''select'') s"
  by (rule startswith_lower_iff) (simp add: py_def sre_lower_def)

lemma space_not_letter: "isspace a \<Longrightarrow> \<not> is_letter (sre_lower a)"
  by (auto simp: isspace_def is_letter_def sre_lower_def)

lemma rstrip_keeps:
  assumes "pre \<noteq> []" "\<not> P (last pre)"
  shows "rev (dropWhile P (rev (pre @ rest))) = pre @ rev (dropWhile P (rev rest))"
proof -
  have "dropWhile P (rev pre) = rev pre"
    using assms by (cases pre rule: rev_cases) auto
  then show ?thesis by (simp add: dropWhile_append)
qed

lemma rstrip_prefix: "\<exists>z. t = rev (dropWhile P (rev t)) @ z"
proof -
  have "t = rev (takeWhile P (rev t) @ dropWhile P (rev t))"
    by (simp only: takeWhile_dropWhile_id rev_rev_ident)
  also have "\<dots> = rev (dropWhile P (rev t)) @ rev (takeWhile P (rev t))"
    by (simp only: rev_append)
  finally show ?thesis by blast
qed

lemma begins_ci_strip:
  assumes "kw \<noteq> []" "list_all is_letter kw"
  shows "begins_ci kw (strip c) = begins_ci kw (dropWhile isspace c)"
proof
  assume "begins_ci kw (strip c)"
  then obtain pre rest where e: "strip c = pre @ rest" and s: "same_up_to_case pre kw"
    by (auto simp: begins_ci_def)
  obtain z where "dropWhile isspace c = strip c @ z"
    unfolding strip_def using rstrip_prefix by blast
  then have "dropWhile isspace c = pre @ (rest @ z)" using e by simp
  then show "begins_ci kw (dropWhile isspace c)" using s unfolding begins_ci_def by blast
next
  assume "begins_ci kw (dropWhile isspace c)"
  then obtain pre rest where e: "dropWhile isspace c = pre @ rest" and s: "same_up_to_case pre kw"
    by (auto simp: begins_ci_def)
  have len: "length pre = length kw" using s by (simp add: same_up_to_case_def list_all2_lengthD)
  then have ne: "pre \<noteq> []" using assms(1) by auto
  have idx: "length kw - 1 < length pre" using len ne by (cases pre) auto
  have "sre_lower (pre ! (length kw - 1)) = sre_lower (kw ! (length kw - 1))"
    using list_all2_nthD[OF s[unfolded same_up_to_case_def] idx] .
  then have "sre_lower (last pre) = sre_lower (last kw)"
    using ne assms(1) len by (simp add: last_conv_nth)
  moreover have "is_letter (last kw)" using assms by (simp add: list_all_iff)
  then have "sre_lower (last kw) = last kw \<and> is_letter (last kw)"
    by (auto simp: is_letter_def sre_lower_def)
  ultimately have "\<not> isspace (last pre)" using space_not_letter by force
  with ne have "rev (dropWhile isspace (rev (pre @ rest))) = pre @ rev (dropWhile isspace (rev rest))"
    by (rule rstrip_keeps)
  then have "strip c = pre @ rev (dropWhile isspace (rev rest))"
    by (simp only: strip_def e)
  then show "begins_ci kw (strip c)" using s unfolding begins_ci_def by blast
qed

lemma select_after_leading_space:
  "startswith (lower (strip c)) (py ''select'') = begins_ci (py ''select'') (dropWhile isspace c)"
  unfolding startswith_select
  by (rule begins_ci_strip) (simp_all add: py_def is_letter_def)

section \<open>Traces\<close>

lemma executed_append: "executed (a @ b) = executed a @ executed b"
  by (induction a rule: executed.induct) auto

lemma said_append: "said (a @ b) = said a @ said b"
  by (induction a rule: said.induct) auto

section \<open>KnowledgeBase.search_confluence\<close>

lemma confluence_loop_filter:
  "confluence_loop self results acc =
   acc @ map to_excerpt (filter (\<lambda>r. is_safe_content (content_filter self) (content_of r)) results)"
  by (induction results arbitrary: acc) auto

lemma search_confluence_cases:
  "search_confluence env self query =
     ([ConfluenceSearch query 5],
      case confluence_search env query 5 of
        Inl e \<Rightarrow> Inl e
      | Inr results \<Rightarrow> Inr (map to_excerpt
          (filter (\<lambda>r. is_safe_content (content_filter self) (content_of r)) results)))"
  by (simp add: search_confluence_def io_bind_def io_call_def io_return_def
      confluence_loop_filter split: sum.splits)

section \<open>KnowledgeBase.query_database\<close>

lemma rows_loop_filter:
  "rows_loop env self columns rows acc =
   acc @ filter (all_values_safe env self) (map (dict_zip columns) rows)"
  by (induction rows arbitrary: acc) auto

lemma run_query_cases:
  "run_query env self sql =
     (case execute env sql of
        Inl e \<Rightarrow> ([Execute sql, db_error_print e], Inr [])
      | Inr cur \<Rightarrow>
          (case description cur of
             None \<Rightarrow> ([Execute sql, db_error_print none_not_iterable], Inr [])
           | Some columns \<Rightarrow>
               (case fetchall cur of
                  Inl e \<Rightarrow> ([Execute sql, Fetchall, db_error_print e], Inr [])
                | Inr rows \<Rightarrow> ([Execute sql, Fetchall],
                    Inr (filter (all_values_safe env self) (map (dict_zip columns) rows))))))"
  by (simp add: run_query_def io_try_def io_bind_def io_call_def io_return_def io_raise_def
      io_emit_def db_error_print_def rows_loop_filter split: sum.splits option.splits)

lemma run_query_returns: "\<exists>t recs. run_query env self sql = (t, Inr recs) \<and> executed t = [sql] \<and> said t = []"
  unfolding run_query_cases
  by (auto simp: db_error_print_def split: sum.splits option.splits)

lemma query_database_rejected:
  assumes "llm env (sql_prompt (allowed_tables env) query) 100 = Inr c"
    and "\<not> startswith (lower (strip c)) (py ''select'')"
  shows "query_database env self query =
           ([LlmCall (sql_prompt (allowed_tables env) query) 100], Inr [])"
  using assms by (simp add: query_database_def io_bind_def io_call_def io_return_def)

lemma query_database_llm_error:
  assumes "llm env (sql_prompt (allowed_tables env) query) 100 = Inl e"
  shows "query_database env self query =
           ([LlmCall (sql_prompt (allowed_tables env) query) 100], Inl e)"
  using assms by (simp add: query_database_def io_bind_def io_call_def)

lemma query_database_accepted:
  assumes "llm env (sql_prompt (allowed_tables env) query) 100 = Inr c"
    and "startswith (lower (strip c)) (py ''select'')"
  shows "query_database env self query =
     (case connect env of
        Some e \<Rightarrow> ([LlmCall (sql_prompt (allowed_tables env) query) 100, Connect], Inl e)
      | None \<Rightarrow>
         (case cursor env of
            Some e \<Rightarrow> ([LlmCall (sql_prompt (allowed_tables env) query) 100, Connect, Cursor, Rollback], Inl e)
          | None \<Rightarrow>
              ([LlmCall (sql_prompt (allowed_tables env) query) 100, Connect, Cursor]
                 @ fst (run_query env self (strip c)) @ [CursorClose, Commit],
               case commit env of None \<Rightarrow> snd (run_query env self (strip c)) | Some e \<Rightarrow> Inl e)))"
proof -
  obtain t recs where rq: "run_query env self (strip c) = (t, Inr recs)"
    using run_query_returns by blast
  show ?thesis
    using assms rq
    by (simp add: query_database_def io_bind_def io_call_def with_connection_def with_cursor_def
        split: option.splits)
qed

lemma query_database_said: "said (fst (query_database env self query)) = []"
proof (cases "llm env (sql_prompt (allowed_tables env) query) 100")
  case (Inl e)
  then show ?thesis by (simp add: query_database_llm_error)
next
  case (Inr c)
  obtain t recs where rq: "run_query env self (strip c) = (t, Inr recs)" "said t = []"
    using run_query_returns by blast
  show ?thesis
  proof (cases "startswith (lower (strip c)) (py ''select'')")
    case True
    show ?thesis unfolding query_database_accepted[OF Inr True]
      using rq by (simp add: said_append split: option.splits)
  next
    case False
    show ?thesis unfolding query_database_rejected[OF Inr False] by simp
  qed
qed

lemma query_database_executed:
  assumes "llm env (sql_prompt (allowed_tables env) query) 100 = Inr c"
    and "startswith (lower (strip c)) (py ''select'')"
  shows "executed (fst (query_database env self query)) =
           (if connect env = None \<and> cursor env = None then [strip c] else [])"
proof -
  obtain t recs where rq: "run_query env self (strip c) = (t, Inr recs)" "executed t = [strip c]"
    using run_query_returns by blast
  show ?thesis unfolding query_database_accepted[OF assms]
    using rq by (simp add: executed_append split: option.splits)
qed


lemma query_database_execute_error:
  assumes "llm env (sql_prompt (allowed_tables env) query) 100 = Inr c"
    and "startswith (lower (strip c)) (py ''select'')"
    and "connect env = None" "cursor env = None" "commit env = None"
    and "execute env (strip c) = Inl e"
  shows "snd (query_database env self query) = Inr []"
  unfolding query_database_accepted[OF assms(1,2)]
  using assms(3-) by (simp add: run_query_cases)

lemma query_database_safe:
  assumes "query_database env self query = (t, Inr records)"
  shows "\<forall>record\<in>set records. all_values_safe env self record"
proof (cases "llm env (sql_prompt (allowed_tables env) query) 100")
  case (Inl e)
  then show ?thesis using assms by (simp add: query_database_llm_error)
next
  case (Inr c)
  show ?thesis
  proof (cases "startswith (lower (strip c)) (py ''select'')")
    case False
    then show ?thesis using assms Inr by (simp add: query_database_rejected)
  next
    case True
    have "snd (run_query env self (strip c)) = Inr records"
      using assms unfolding query_database_accepted[OF Inr True]
      by (auto split: option.splits)
    then show ?thesis
      by (auto simp: run_query_cases split: sum.splits option.splits)
  qed
qed




lemmas run_defs = query_database_def search_confluence_def generate_response_def run_query_def
  io_bind_def io_return_def io_raise_def io_call_def io_emit_def io_try_def
  with_connection_def with_cursor_def quiet_env_def example_rows_def
  strip_def py_def isspace_def startswith_def lower_def lower_cp_def
  all_values_safe_def dict_zip_def dict_values_def KnowledgeBase_init_def
  ResponseGenerator_init_def is_safe_content_def ContentFilter_init_def lits_def
  lit_matches_def sre_lower_def case_fixes_def

text \<open>
  C2. When the model's completion, stripped, does not begin with \<open>select\<close> up to case,
  \<open>query_database\<close> returns the empty list and its only external call is the call of the
  model: no connection is opened and nothing is handed to the executor. The completion
  \<open>DROP TABLE users;\<close> is such a case.
\<close>

theorem rejected_query_is_never_executed:
  assumes "llm env (sql_prompt (allowed_tables env) query) 100 = Inr c"
    and "\<not> begins_ci (py ''select'') (strip c)"
  shows "query_database env self query =
           ([LlmCall (sql_prompt (allowed_tables env) query) 100], Inr [])
         \<and> executed (fst (query_database env self query)) = []"
  using assms by (simp add: query_database_rejected startswith_select)

theorem rejected_query_is_never_executed_witness:
  "llm (quiet_env (py ''DROP TABLE users;'')) (sql_prompt (allowed_tables (quiet_env (py ''DROP TABLE users;''))) (py ''drop it'')) 100
     = Inr (py ''DROP TABLE users;'')
   \<and> \<not> begins_ci (py ''select'') (strip (py ''DROP TABLE users;''))
   \<and> snd (query_database (quiet_env (py ''DROP TABLE users;'')) KnowledgeBase_init (py ''drop it'')) = Inr []
   \<and> executed (fst (query_database (quiet_env (py ''DROP TABLE users;'')) KnowledgeBase_init (py ''drop it''))) = []"
proof -
  have h1: "llm (quiet_env (py ''DROP TABLE users;''))
      (sql_prompt (allowed_tables (quiet_env (py ''DROP TABLE users;''))) (py ''drop it'')) 100
     = Inr (py ''DROP TABLE users;'')"
    by (simp add: quiet_env_def)
  have "\<not> startswith (lower (strip (py ''DROP TABLE users;''))) (py ''select'')"
    by (simp add: strip_def py_def isspace_def startswith_def lower_def lower_cp_def)
  then have h2: "\<not> begins_ci (py ''select'') (strip (py ''DROP TABLE users;''))"
    by (simp add: startswith_select)
  show ?thesis
    using rejected_query_is_never_executed[where self = KnowledgeBase_init, OF h1 h2] h1 h2 by simp
qed

text \<open>
  C6. The guard of \<open>query_database\<close> is a prefix test. If the completion, with its leading
  whitespace removed, does not begin with \<open>select\<close> up to case, the function returns the
  empty list after the call of the model. If it does, the function goes on to open the
  connection, whatever follows the keyword, and with a connection and a cursor the
  stripped completion is executed.
\<close>

theorem query_guard_is_a_prefix_gate:
  assumes "llm env (sql_prompt (allowed_tables env) query) 100 = Inr c"
  shows "(\<not> begins_ci (py ''select'') (dropWhile isspace c) \<longrightarrow>
            query_database env self query =
              ([LlmCall (sql_prompt (allowed_tables env) query) 100], Inr []))
       \<and> (begins_ci (py ''select'') (dropWhile isspace c) \<longrightarrow>
            take 2 (fst (query_database env self query)) =
              [LlmCall (sql_prompt (allowed_tables env) query) 100, Connect]
            \<and> (connect env = None \<and> cursor env = None \<longrightarrow>
                 executed (fst (query_database env self query)) = [strip c]))"
proof (intro conjI impI)
  assume "\<not> begins_ci (py ''select'') (dropWhile isspace c)"
  then have "\<not> startswith (lower (strip c)) (py ''select'')"
    by (simp add: select_after_leading_space)
  then show "query_database env self query =
      ([LlmCall (sql_prompt (allowed_tables env) query) 100], Inr [])"
    using assms by (rule query_database_rejected[rotated])
next
  assume "begins_ci (py ''select'') (dropWhile isspace c)"
  then have acc: "startswith (lower (strip c)) (py ''select'')"
    by (simp add: select_after_leading_space)
  show "take 2 (fst (query_database env self query)) =
      [LlmCall (sql_prompt (allowed_tables env) query) 100, Connect]"
    unfolding query_database_accepted[OF assms acc] by (simp split: option.splits)
next
  assume "begins_ci (py ''select'') (dropWhile isspace c)"
    and "connect env = None \<and> cursor env = None"
  then show "executed (fst (query_database env self query)) = [strip c]"
    using query_database_executed[OF assms] by (simp add: select_after_leading_space)
qed

theorem query_guard_is_a_prefix_gate_witness:
  "\<not> begins_ci (py ''select'') (dropWhile isspace (py '' ; select 1''))
   \<and> query_database (quiet_env (py '' ; select 1'')) KnowledgeBase_init (py ''q'') =
       ([LlmCall (sql_prompt (allowed_tables (quiet_env (py '' ; select 1''))) (py ''q'')) 100], Inr [])
   \<and> begins_ci (py ''select'') (dropWhile isspace (py ''  SeLeCt from from ;; ''))
   \<and> connect (quiet_env (py ''  SeLeCt from from ;; '')) = None
   \<and> cursor (quiet_env (py ''  SeLeCt from from ;; '')) = None
   \<and> executed (fst (query_database (quiet_env (py ''  SeLeCt from from ;; '')) KnowledgeBase_init (py ''q'')))
       = [py ''SeLeCt from from ;;'']"
proof -
  have r: "\<not> begins_ci (py ''select'') (dropWhile isspace (py '' ; select 1''))"
    unfolding select_after_leading_space[symmetric]
    by (simp add: strip_def py_def isspace_def startswith_def lower_def lower_cp_def)
  have a: "begins_ci (py ''select'') (dropWhile isspace (py ''  SeLeCt from from ;; ''))"
    unfolding select_after_leading_space[symmetric]
    by (simp add: strip_def py_def isspace_def startswith_def lower_def lower_cp_def)
  have s: "strip (py ''  SeLeCt from from ;; '') = py ''SeLeCt from from ;;''"
    by (simp add: strip_def py_def isspace_def)
  have l: "llm (quiet_env x) p 100 = Inr x" for x p
    by (simp add: quiet_env_def)
  have c: "connect (quiet_env x) = None \<and> cursor (quiet_env x) = None" for x
    by (simp add: quiet_env_def)
  show ?thesis
    using query_guard_is_a_prefix_gate[where self = KnowledgeBase_init and query = "py ''q''"
        and c = "py '' ; select 1''", OF l]
      query_guard_is_a_prefix_gate[where self = KnowledgeBase_init and query = "py ''q''"
        and c = "py ''  SeLeCt from from ;; ''", OF l]
      r a s c
    by simp
qed

text \<open>
  C8. When the stripped completion begins with \<open>select\<close> up to case, the statements handed
  to the executor are exactly that stripped completion, once, as soon as the connection and
  the cursor open (and none otherwise). This holds for every list of allowed tables and
  every text after the keyword: the tables are used in the prompt only, and nothing of
  the completion is checked or removed.
\<close>

theorem accepted_query_reaches_executor_unmodified:
  assumes "llm env (sql_prompt (allowed_tables env) query) 100 = Inr c"
    and "begins_ci (py ''select'') (strip c)"
  shows "executed (fst (query_database env self query)) =
           (if connect env = None \<and> cursor env = None then [strip c] else [])"
  using assms by (simp add: query_database_executed startswith_select)

theorem accepted_query_reaches_executor_unmodified_witness:
  "allowed_tables (quiet_env (py ''select * from secrets; DROP TABLE users'')) = [py ''docs'']
   \<and> begins_ci (py ''select'') (strip (py ''select * from secrets; DROP TABLE users''))
   \<and> executed (fst (query_database (quiet_env (py ''select * from secrets; DROP TABLE users''))
        KnowledgeBase_init (py ''q''))) = [py ''select * from secrets; DROP TABLE users'']"
proof -
  have a: "begins_ci (py ''select'') (strip (py ''select * from secrets; DROP TABLE users''))"
    unfolding startswith_select[symmetric]
    by (simp add: strip_def py_def isspace_def startswith_def lower_def lower_cp_def)
  have s: "strip (py ''select * from secrets; DROP TABLE users'') = py ''select * from secrets; DROP TABLE users''"
    by (simp add: strip_def py_def isspace_def)
  have l: "llm (quiet_env x) p 100 = Inr x" for x p
    by (simp add: quiet_env_def)
  have c: "connect (quiet_env x) = None \<and> cursor (quiet_env x) = None \<and> allowed_tables (quiet_env x) = [py ''docs'']" for x
    by (simp add: quiet_env_def)
  show ?thesis
    using accepted_query_reaches_executor_unmodified[where self = KnowledgeBase_init and query = "py ''q''", OF l a] s c a
    by simp
qed







text \<open>
  The filter reads the values of a record, not its column names: a row with a column named
  \<open>ssn\<close> whose values match no pattern is returned whole.
\<close>

lemma record_with_ssn_column_is_kept:
  "snd (query_database ssn_env KnowledgeBase_init (py ''ssn of Alice''))
     = Inr [[(py ''name'', py ''Alice''), (py ''ssn'', py ''123-45-6789'')]]"
  by (simp add: ssn_env_def ssn_rows_def run_defs)

text \<open>
  Exceptions of \<open>execute\<close>, of the iteration over \<open>description\<close> and of \<open>fetchall\<close> are
  caught inside \<open>query_database\<close> (lemma \<open>query_database_execute_error\<close> for the first).
\<close>

text \<open>
  C3. A failure to open the connection is not caught by \<open>query_database\<close>: the call of
  \<open>get_db_connection\<close> stands outside the \<open>try\<close> block, so with a database that refuses
  the connection the exception leaves the function.
\<close>

theorem connection_failure_leaves_query_database:
  "query_database db_down_env KnowledgeBase_init (py ''who is on call'') =
     ([LlmCall (sql_prompt [py ''docs''] (py ''who is on call'')) 100, Connect],
      Inl (Exn (py ''could not connect to server'')))"
  by (simp add: query_database_def db_down_env_def quiet_env_def io_bind_def io_call_def
      strip_def py_def isspace_def startswith_def lower_def lower_cp_def)

section \<open>ResponseGenerator.generate_response\<close>

lemma search_confluence_said: "said (fst (search_confluence env self query)) = []"
  by (simp add: search_confluence_cases)

lemma generate_response_cases:
  "generate_response env self query =
     (case snd (search_confluence env (kb self) query) of
        Inl e \<Rightarrow> (fst (search_confluence env (kb self) query), Inl e)
      | Inr wiki \<Rightarrow>
         (case snd (query_database env (kb self) query) of
            Inl e \<Rightarrow> (fst (search_confluence env (kb self) query)
                        @ fst (query_database env (kb self) query), Inl e)
          | Inr db \<Rightarrow>
              (fst (search_confluence env (kb self) query)
                 @ fst (query_database env (kb self) query)
                 @ [LlmCall (context_prompt (repr_excerpts env wiki) (repr_records env db) query) 500],
               case llm env (context_prompt (repr_excerpts env wiki) (repr_records env db) query) 500 of
                 Inl e \<Rightarrow> Inl e
               | Inr text \<Rightarrow> Inr (attribute (strip text) (sources_of wiki db)))))"
  by (cases "search_confluence env (kb self) query"; cases "query_database env (kb self) query")
     (simp add: generate_response_def io_bind_def io_call_def io_return_def split: sum.splits)

lemma generate_response_said: "said (fst (generate_response env self query)) = []"
  unfolding generate_response_cases
  by (simp add: said_append search_confluence_said query_database_said split: sum.splits)

lemma occurs_append: "occurs p s \<Longrightarrow> occurs p (s @ x)"
proof -
  assume "occurs p s"
  then obtain u w v where "s = u @ w @ v" "w \<in> lang p" by (auto simp: occurs_def)
  then have "s @ x = u @ w @ (v @ x)" by simp
  then show ?thesis using \<open>w \<in> lang p\<close> unfolding occurs_def by blast
qed

lemma unsafe_attribute:
  "\<not> is_safe_content cf text \<Longrightarrow> \<not> is_safe_content cf (attribute text sources)"
  unfolding is_safe_content_iff attribute_def by (auto intro: occurs_append)

text \<open>
  What \<open>search_confluence\<close> does return: the items of the provider's results whose
  \<open>content\<close> text passes the filter, in the provider's order.
\<close>

lemma search_confluence_keeps_results_with_safe_content:
  assumes "confluence_search env query 5 = Inr results"
  shows "\<exists>items. search_confluence env self query = ([ConfluenceSearch query 5], Inr items)
     \<and> items = map to_excerpt
         (filter (\<lambda>r. is_safe_content (content_filter self) (content_of r)) results)
     \<and> subseq items (map to_excerpt results)
     \<and> length items \<le> length results"
proof -
  let ?kept = "filter (\<lambda>r. is_safe_content (content_filter self) (content_of r)) results"
  have "subseq ?kept results" by simp
  then have "subseq (map to_excerpt ?kept) (map to_excerpt results)"
    by (rule subseq_map)
  moreover have "length (map to_excerpt ?kept) \<le> length results" by simp
  ultimately show ?thesis using assms by (simp add: search_confluence_cases)
qed

text \<open>
  C4. The filter of \<open>search_confluence\<close> reads the \<open>content\<close> of a raw result, while the
  item it returns carries the \<open>excerpt\<close> of that result. With two provider results, the
  second with clean content and a password in its excerpt, both items are returned: the
  returned excerpt fails the content filter and the item is not dropped.
\<close>

theorem search_confluence_returns_unsafe_excerpt:
  "confluence_search (wiki_env [clean_page, leaky_page] []) (py ''admin'') 5
     = Inr [clean_page, leaky_page]
   \<and> search_confluence (wiki_env [clean_page, leaky_page] []) KnowledgeBase_init (py ''admin'')
     = ([ConfluenceSearch (py ''admin'') 5], Inr [to_excerpt clean_page, to_excerpt leaky_page])
   \<and> excerpt (to_excerpt leaky_page) = Some (py ''root password: hunter2'')
   \<and> \<not> is_safe_content (content_filter KnowledgeBase_init) (py ''root password: hunter2'')"
proof -
  have c: "is_safe_content (content_filter KnowledgeBase_init) (content_of clean_page)"
    by (simp add: content_of_def clean_page_def run_defs)
  have l: "is_safe_content (content_filter KnowledgeBase_init) (content_of leaky_page)"
    by (simp add: content_of_def leaky_page_def run_defs)
  have u: "\<not> is_safe_content (content_filter KnowledgeBase_init) (py ''root password: hunter2'')"
    by (simp add: run_defs)
  have e: "excerpt (to_excerpt leaky_page) = Some (py ''root password: hunter2'')"
    by (simp add: to_excerpt_def leaky_page_def)
  have p: "confluence_search (wiki_env [clean_page, leaky_page] []) (py ''admin'') 5
      = Inr [clean_page, leaky_page]"
    by (simp add: wiki_env_def quiet_env_def)
  have "search_confluence (wiki_env [clean_page, leaky_page] []) KnowledgeBase_init (py ''admin'')
      = ([ConfluenceSearch (py ''admin'') 5], Inr [to_excerpt clean_page, to_excerpt leaky_page])"
    using c l p by (simp add: search_confluence_cases)
  then show ?thesis using u e p by blast
qed

text \<open>
  C9. When both searches return, the answer is the stripped completion followed by the
  attribution: wiki items and no records give \<open>Sources: Confluence\<close>; neither gives no
  suffix; both give \<open>Sources: Confluence and internal database\<close>; records alone give
  \<open>Sources: internal database\<close>.
\<close>

theorem attribution_names_the_contributing_sources:
  assumes "snd (search_confluence env (kb self) query) = Inr wiki"
    and "snd (query_database env (kb self) query) = Inr db"
    and "llm env (context_prompt (repr_excerpts env wiki) (repr_records env db) query) 500 = Inr c"
  shows "snd (generate_response env self query) = Inr (strip c @
      (if wiki \<noteq> [] \<and> db = [] then [10, 10] @ py ''Sources: Confluence''
       else if wiki = [] \<and> db = [] then []
       else if wiki \<noteq> [] \<and> db \<noteq> [] then [10, 10] @ py ''Sources: Confluence and internal database''
       else [10, 10] @ py ''Sources: internal database''))"
  unfolding generate_response_cases using assms
  by (simp add: attribute_def sources_of_def py_def)

theorem attribution_names_the_contributing_sources_witness:
  "snd (search_confluence (wiki_env [clean_page] (py ''Use the client. '')) (kb ResponseGenerator_init) (py ''vpn''))
     = Inr [to_excerpt clean_page]
   \<and> snd (query_database (wiki_env [clean_page] (py ''Use the client. '')) (kb ResponseGenerator_init) (py ''vpn''))
     = Inr []
   \<and> snd (generate_response (wiki_env [clean_page] (py ''Use the client. '')) ResponseGenerator_init (py ''vpn''))
     = Inr (py ''Use the client.'' @ [10, 10] @ py ''Sources: Confluence'')"
proof -
  let ?env = "wiki_env [clean_page] (py ''Use the client. '')"
  have s: "is_safe_content (content_filter KnowledgeBase_init) (content_of clean_page)"
    by (simp add: content_of_def clean_page_def run_defs)
  have w: "snd (search_confluence ?env (kb ResponseGenerator_init) (py ''vpn'')) = Inr [to_excerpt clean_page]"
    using s by (simp add: search_confluence_cases wiki_env_def quiet_env_def ResponseGenerator_init_def)
  have l: "llm ?env p n = Inr (py ''Use the client. '')" for p n
    by (simp add: wiki_env_def quiet_env_def)
  have "\<not> startswith (lower (strip (py ''Use the client. ''))) (py ''select'')"
    by (simp add: strip_def py_def isspace_def startswith_def lower_def lower_cp_def)
  then have d: "snd (query_database ?env (kb ResponseGenerator_init) (py ''vpn'')) = Inr []"
    using query_database_rejected[OF l] by simp
  have st: "strip (py ''Use the client. '') = py ''Use the client.''"
    by (simp add: strip_def py_def isspace_def)
  show ?thesis
    using attribution_names_the_contributing_sources[OF w d l] w d st by simp
qed

text \<open>
  C1, as amended. Every record that \<open>query_database\<close> hands to \<open>generate_response\<close> has only
  values that pass the content filter. The answer is the stripped completion of the model
  followed by the attribution, and no content filter is applied to it: whenever the
  stripped completion fails a filter, so does the answer.
\<close>

theorem generate_response_returns_unfiltered_completion:
  assumes "snd (generate_response env self query) = Inr answer"
  shows "\<exists>wiki db c.
       snd (search_confluence env (kb self) query) = Inr wiki
     \<and> snd (query_database env (kb self) query) = Inr db
     \<and> (\<forall>record\<in>set db. \<forall>value\<in>set (dict_values record).
          is_safe_content (content_filter (kb self)) (str_of env value))
     \<and> llm env (context_prompt (repr_excerpts env wiki) (repr_records env db) query) 500 = Inr c
     \<and> answer = attribute (strip c) (sources_of wiki db)
     \<and> (\<forall>cf. \<not> is_safe_content cf (strip c) \<longrightarrow> \<not> is_safe_content cf answer)"
proof -
  from assms obtain wiki where w: "snd (search_confluence env (kb self) query) = Inr wiki"
    unfolding generate_response_cases by (auto split: sum.splits)
  from assms w obtain db where d: "snd (query_database env (kb self) query) = Inr db"
    unfolding generate_response_cases by (auto split: sum.splits)
  from assms w d obtain c where
    c: "llm env (context_prompt (repr_excerpts env wiki) (repr_records env db) query) 500 = Inr c"
    and a: "answer = attribute (strip c) (sources_of wiki db)"
    unfolding generate_response_cases by (auto split: sum.splits)
  have "query_database env (kb self) query = (fst (query_database env (kb self) query), Inr db)"
    using d by (simp add: prod_eq_iff)
  then have "\<forall>record\<in>set db. all_values_safe env (kb self) record"
    by (rule query_database_safe)
  then have safe: "\<forall>record\<in>set db. \<forall>value\<in>set (dict_values record).
      is_safe_content (content_filter (kb self)) (str_of env value)"
    by (simp add: all_values_safe_def list_all_iff)
  show ?thesis using w d c a safe unsafe_attribute by blast
qed

theorem generate_response_returns_unfiltered_completion_witness:
  "snd (generate_response (quiet_env (py ''SELECT name, note FROM docs'')) ResponseGenerator_init (py ''who''))
     = Inr (py ''SELECT name, note FROM docs'' @ [10, 10] @ py ''Sources: internal database'')
   \<and> snd (query_database (quiet_env (py ''SELECT name, note FROM docs'')) (kb ResponseGenerator_init) (py ''who''))
     = Inr [[(py ''name'', py ''Alice''), (py ''note'', py ''on call'')]]
   \<and> is_safe_content (content_filter (kb ResponseGenerator_init)) (py ''Alice'')
   \<and> is_safe_content (content_filter (kb ResponseGenerator_init)) (py ''on call'')"
proof -
  let ?env = "quiet_env (py ''SELECT name, note FROM docs'')"
  have g: "snd (generate_response ?env ResponseGenerator_init (py ''who''))
     = Inr (py ''SELECT name, note FROM docs'' @ [10, 10] @ py ''Sources: internal database'')"
    by (simp add: run_defs attribute_def sources_of_def)
  have q: "snd (query_database ?env (kb ResponseGenerator_init) (py ''who''))
     = Inr [[(py ''name'', py ''Alice''), (py ''note'', py ''on call'')]]"
    by (simp add: run_defs)
  have v: "str_of ?env x = x" for x
    by (simp add: quiet_env_def)
  show ?thesis
    using generate_response_returns_unfiltered_completion[OF g] g q v
    by (auto simp: dict_values_def)
qed

text \<open>
  The claim as first stated fails: a completion that contains a password is returned as the
  answer.
\<close>

theorem final_answer_counterexample:
  "snd (generate_response (quiet_env (py ''The admin password is hunter2'')) ResponseGenerator_init (py ''hi''))
     = Inr (py ''The admin password is hunter2'')
   \<and> \<not> is_safe_content (content_filter (kb ResponseGenerator_init)) (py ''The admin password is hunter2'')"
  by (simp add: run_defs attribute_def sources_of_def)

section \<open>handle_mention and handle_message\<close>

text \<open>
  C10. When producing the answer raises an exception (in \<open>generate_response\<close>, among them
  a failure of the model during synthesis, or while the question is taken from the event),
  each handler returns normally and the replies it has sent are exactly the fixed apology;
  the text of the exception goes to standard output only.
\<close>

theorem handlers_reply_with_the_apology_on_error:
  "(ev_text event = Some t \<and> after_first 62 t = Some rest
      \<and> snd (generate_response env rg (strip rest)) = Inl e \<longrightarrow>
        handle_mention env rg event =
          (fst (generate_response env rg (strip rest))
             @ [Say apology, Print (py ''Error processing mention: '' @ msg e)], Inr ())
        \<and> said (fst (handle_mention env rg event)) = [apology])
   \<and> (ev_text event = None \<or> (ev_text event = Some t \<and> after_first 62 t = None) \<longrightarrow>
        snd (handle_mention env rg event) = Inr ()
        \<and> said (fst (handle_mention env rg event)) = [apology])
   \<and> (ev_channel_type event = Some (py ''im'') \<and> ev_text event = Some t
      \<and> snd (generate_response env rg t) = Inl e \<longrightarrow>
        handle_message env rg event =
          (fst (generate_response env rg t)
             @ [Say apology, Print (py ''Error processing message: '' @ msg e)], Inr ())
        \<and> said (fst (handle_message env rg event)) = [apology])
   \<and> (ev_channel_type event = Some (py ''im'') \<and> ev_text event = None \<longrightarrow>
        snd (handle_message env rg event) = Inr ()
        \<and> said (fst (handle_message env rg event)) = [apology])"
proof (intro conjI impI)
  assume h: "ev_text event = Some t \<and> after_first 62 t = Some rest
      \<and> snd (generate_response env rg (strip rest)) = Inl e"
  then obtain tr where g: "generate_response env rg (strip rest) = (tr, Inl e)"
    by (cases "generate_response env rg (strip rest)") auto
  show m: "handle_mention env rg event =
      (fst (generate_response env rg (strip rest))
         @ [Say apology, Print (py ''Error processing mention: '' @ msg e)], Inr ())"
    using h by (simp add: handle_mention_def g io_try_def io_bind_def io_emit_def)
  show "said (fst (handle_mention env rg event)) = [apology]"
    unfolding m by (simp add: said_append generate_response_said)
next
  assume h: "ev_text event = None \<or> (ev_text event = Some t \<and> after_first 62 t = None)"
  then have "handle_mention env rg event = ([Say apology, Print (py ''Error processing mention: '' @ msg key_error_text)], Inr ())
      \<or> handle_mention env rg event = ([Say apology, Print (py ''Error processing mention: '' @ msg index_error)], Inr ())"
    by (auto simp: handle_mention_def io_try_def io_bind_def io_emit_def io_raise_def)
  then show "snd (handle_mention env rg event) = Inr ()"
    and "said (fst (handle_mention env rg event)) = [apology]"
    by auto
next
  assume h: "ev_channel_type event = Some (py ''im'') \<and> ev_text event = Some t
      \<and> snd (generate_response env rg t) = Inl e"
  then obtain tr where g: "generate_response env rg t = (tr, Inl e)"
    by (cases "generate_response env rg t") auto
  show m: "handle_message env rg event =
      (fst (generate_response env rg t)
         @ [Say apology, Print (py ''Error processing message: '' @ msg e)], Inr ())"
    using h by (simp add: handle_message_def g io_try_def io_bind_def io_emit_def)
  show "said (fst (handle_message env rg event)) = [apology]"
    unfolding m by (simp add: said_append generate_response_said)
next
  assume h: "ev_channel_type event = Some (py ''im'') \<and> ev_text event = None"
  then have "handle_message env rg event =
      ([Say apology, Print (py ''Error processing message: '' @ msg key_error_text)], Inr ())"
    by (simp add: handle_message_def io_try_def io_bind_def io_emit_def io_raise_def)
  then show "snd (handle_message env rg event) = Inr ()"
    and "said (fst (handle_message env rg event)) = [apology]"
    by auto
qed

theorem handlers_reply_with_the_apology_on_error_witness:
  "snd (generate_response failing_llm_env ResponseGenerator_init (py ''who is on call''))
     = Inl (Exn (py ''model failure''))
   \<and> snd (handle_mention failing_llm_env ResponseGenerator_init mention_event) = Inr ()
   \<and> said (fst (handle_mention failing_llm_env ResponseGenerator_init mention_event)) = [apology]
   \<and> snd (handle_message failing_llm_env ResponseGenerator_init direct_event) = Inr ()
   \<and> said (fst (handle_message failing_llm_env ResponseGenerator_init direct_event)) = [apology]"
proof -
  have g: "snd (generate_response failing_llm_env ResponseGenerator_init (py ''who is on call''))
     = Inl (Exn (py ''model failure''))"
    by (simp add: failing_llm_env_def run_defs attribute_def sources_of_def)
  have a: "after_first 62 (py ''<@U1> who is on call'') = Some (py '' who is on call'')"
    by (simp add: py_def)
  have s: "strip (py '' who is on call'') = py ''who is on call''"
    by (simp add: strip_def py_def isspace_def)
  have m: "ev_text mention_event = Some (py ''<@U1> who is on call'')"
    by (simp add: mention_event_def)
  have d: "ev_channel_type direct_event = Some (py ''im'')"
    "ev_text direct_event = Some (py ''who is on call'')"
    by (simp_all add: direct_event_def)
  have g': "snd (generate_response failing_llm_env ResponseGenerator_init (strip (py '' who is on call'')))
     = Inl (Exn (py ''model failure''))"
    using g s by simp
  have hm: "handle_mention failing_llm_env ResponseGenerator_init mention_event =
      (fst (generate_response failing_llm_env ResponseGenerator_init (strip (py '' who is on call'')))
         @ [Say apology, Print (py ''Error processing mention: '' @ msg (Exn (py ''model failure'')))], Inr ())
      \<and> said (fst (handle_mention failing_llm_env ResponseGenerator_init mention_event)) = [apology]"
    using handlers_reply_with_the_apology_on_error
        [of mention_event "py ''<@U1> who is on call''" "py '' who is on call''"
            failing_llm_env ResponseGenerator_init "Exn (py ''model failure'')"]
      g' a m
    by blast
  have hd: "handle_message failing_llm_env ResponseGenerator_init direct_event =
      (fst (generate_response failing_llm_env ResponseGenerator_init (py ''who is on call''))
         @ [Say apology, Print (py ''Error processing message: '' @ msg (Exn (py ''model failure'')))], Inr ())
      \<and> said (fst (handle_message failing_llm_env ResponseGenerator_init direct_event)) = [apology]"
    using handlers_reply_with_the_apology_on_error
        [of direct_event "py ''who is on call''" "py '' who is on call''"
            failing_llm_env ResponseGenerator_init "Exn (py ''model failure'')"]
      g d
    by blast
  have "snd (handle_mention failing_llm_env ResponseGenerator_init mention_event) = Inr ()"
    using hm by simp
  moreover have "snd (handle_message failing_llm_env ResponseGenerator_init direct_event) = Inr ()"
    using hd by simp
  ultimately show ?thesis using g hm hd by blast
qed


end
